theory Spec2Isabelle
  imports Main "HOL-Library.Char_ord" "HOL-Library.List_Lexorder" "HOL-Library.AList"
begin

section \<open>Values: decoded JSON as Python sees it\<close>

text \<open>
  \<^verbatim>\<open>resp.json()\<close> yields Python values: \<^verbatim>\<open>None\<close>, booleans, integers, floats, strings,
  lists and dictionaries with string keys. A Python \<^verbatim>\<open>str\<close> is represented by its UTF-8
  encoding (a \<open>string\<close>), so \<^verbatim>\<open>s.encode("utf-8")\<close> is the identity and the order of
  strings by code point is the lexicographic order of the byte lists. A dictionary is an
  association list in insertion order. The program never calculates with a float: it
  only tests one for truth and prints it, so a float is represented by the text of its
  \<^verbatim>\<open>repr\<close>.
\<close>

datatype json =
    JNull
  | JBool bool
  | JInt int
  | JFloat string
  | JStr string
  | JArr "json list"
  | JObj "(string \<times> json) list"

datatype error =
    AttributeError
  | TypeError
  | ValueError
  | HTTPError nat
  | JSONDecodeError
  | RuntimeError string

text \<open>Python's truth value of an object, as used by \<^verbatim>\<open>or\<close>, \<^verbatim>\<open>not\<close>, \<^verbatim>\<open>if\<close> and \<^verbatim>\<open>while\<close>.\<close>

fun truthy :: "json \<Rightarrow> bool" where
  "truthy JNull = False"
| "truthy (JBool b) = b"
| "truthy (JInt i) = (i \<noteq> 0)"
| "truthy (JFloat r) = (r \<noteq> ''0.0'' \<and> r \<noteq> ''-0.0'')"
| "truthy (JStr s) = (s \<noteq> [])"
| "truthy (JArr xs) = (xs \<noteq> [])"
| "truthy (JObj kvs) = (kvs \<noteq> [])"

definition py_or :: "json \<Rightarrow> json \<Rightarrow> json" where
  "py_or a b = (if truthy a then a else b)"

text \<open>\<^verbatim>\<open>d.get(k, default)\<close> on a dictionary.\<close>

definition dict_get :: "(string \<times> json) list \<Rightarrow> string \<Rightarrow> json \<Rightarrow> json" where
  "dict_get kvs k d = (case map_of kvs k of None \<Rightarrow> d | Some v \<Rightarrow> v)"

text \<open>\<^verbatim>\<open>x.get(k, default)\<close> on any value: only a dictionary has the method.\<close>

definition py_get :: "json \<Rightarrow> string \<Rightarrow> json \<Rightarrow> error + json" where
  "py_get x k d = (case x of JObj kvs \<Rightarrow> Inr (dict_get kvs k d) | _ \<Rightarrow> Inl AttributeError)"

text \<open>
  The characters of a string, each a string of its own: a leading byte with the
  continuation bytes (\<open>10xxxxxx\<close>) that follow it.
\<close>

definition is_continuation :: "char \<Rightarrow> bool" where
  "is_continuation c = (128 \<le> (of_char c :: nat) \<and> (of_char c :: nat) < 192)"

function py_chars :: "string \<Rightarrow> string list" where
  "py_chars [] = []"
| "py_chars (c # cs) =
     (c # takeWhile is_continuation cs) # py_chars (dropWhile is_continuation cs)"
  by pat_completeness auto
termination
  by (relation "measure length") (auto simp: length_dropWhile_le less_Suc_eq_le)

text \<open>Iterating a value (\<^verbatim>\<open>for x in v\<close>, \<^verbatim>\<open>list.extend(v)\<close>); a dictionary yields its keys.\<close>

fun py_iter :: "json \<Rightarrow> error + json list" where
  "py_iter (JArr xs) = Inr xs"
| "py_iter (JObj kvs) = Inr (map (\<lambda>kv. JStr (fst kv)) kvs)"
| "py_iter (JStr s) = Inr (map JStr (py_chars s))"
| "py_iter _ = Inl TypeError"

section \<open>The JSON text of a value\<close>

text \<open>
  \<^verbatim>\<open>json.dumps(v, ensure_ascii=False)\<close> of the standard library with its default
  separators \<^verbatim>\<open>", "\<close> and \<^verbatim>\<open>": "\<close>. In a string only the quote, the backslash and the
  control characters below \<open>0x20\<close> are escaped; a float is written as its \<^verbatim>\<open>repr\<close>, except
  for the three non-finite ones.
\<close>

definition digit_char :: "nat \<Rightarrow> char" where
  "digit_char d = char_of (48 + d)"

function show_nat :: "nat \<Rightarrow> string" where
  "show_nat n = (if n < 10 then [digit_char n] else show_nat (n div 10) @ [digit_char (n mod 10)])"
  by pat_completeness auto
termination
  by (relation "measure id") auto

definition show_int :: "int \<Rightarrow> string" where
  "show_int i = (if i < 0 then CHR ''-'' # show_nat (nat (- i)) else show_nat (nat i))"

definition hex_char :: "nat \<Rightarrow> char" where
  "hex_char d = (if d < 10 then char_of (48 + d) else char_of (87 + d))"

definition escape_char :: "char \<Rightarrow> string" where
  "escape_char c =
     (if c = CHR 0x22 then [CHR 0x5C, CHR 0x22]
      else if c = CHR 0x5C then [CHR 0x5C, CHR 0x5C]
      else if c = CHR 0x0A then [CHR 0x5C, CHR ''n'']
      else if c = CHR 0x0D then [CHR 0x5C, CHR ''r'']
      else if c = CHR 0x09 then [CHR 0x5C, CHR ''t'']
      else if c = CHR 0x08 then [CHR 0x5C, CHR ''b'']
      else if c = CHR 0x0C then [CHR 0x5C, CHR ''f'']
      else if (of_char c :: nat) < 32 then
        [CHR 0x5C, CHR ''u'', CHR ''0'', CHR ''0'',
         hex_char (of_char c div 16), hex_char (of_char c mod 16)]
      else [c])"

definition json_quote :: "string \<Rightarrow> string" where
  "json_quote s = CHR 0x22 # concat (map escape_char s) @ [CHR 0x22]"

definition float_json :: "string \<Rightarrow> string" where
  "float_json r =
     (if r = ''inf'' then ''Infinity''
      else if r = ''-inf'' then ''-Infinity''
      else if r = ''nan'' then ''NaN''
      else r)"

fun json_dumps :: "json \<Rightarrow> string"
  and dumps_items :: "json list \<Rightarrow> string"
  and dumps_members :: "(string \<times> json) list \<Rightarrow> string" where
  "json_dumps JNull = ''null''"
| "json_dumps (JBool b) = (if b then ''true'' else ''false'')"
| "json_dumps (JInt i) = show_int i"
| "json_dumps (JFloat r) = float_json r"
| "json_dumps (JStr s) = json_quote s"
| "json_dumps (JArr xs) = ''['' @ dumps_items xs @ '']''"
| "json_dumps (JObj kvs) = ''{'' @ dumps_members kvs @ ''}''"
| "dumps_items [] = []"
| "dumps_items (x # xs) = json_dumps x @ (if xs = [] then [] else '', '' @ dumps_items xs)"
| "dumps_members [] = []"
| "dumps_members (kv # kvs) =
     json_quote (fst kv) @ '': '' @ json_dumps (snd kv)
       @ (if kvs = [] then [] else '', '' @ dumps_members kvs)"

section \<open>Flattener\<close>

text \<open>
  A cell of the output is the text the \<^verbatim>\<open>csv\<close> writer makes of a value: nothing for
  \<^verbatim>\<open>None\<close>, a string as it is, \<^verbatim>\<open>str(v)\<close> for anything else. The text is the content
  of the field, before the writer quotes it. \<^verbatim>\<open>str\<close> of a list or dictionary is Python's
  \<^verbatim>\<open>repr\<close>, which is not modelled: such a cell is \<open>PyRepr v\<close>.
\<close>

datatype cell = Text string | PyRepr json

fun csv_field :: "json \<Rightarrow> cell" where
  "csv_field JNull = Text []"
| "csv_field (JStr s) = Text s"
| "csv_field (JBool b) = Text (if b then ''True'' else ''False'')"
| "csv_field (JInt i) = Text (show_int i)"
| "csv_field (JFloat r) = Text r"
| "csv_field (JArr xs) = PyRepr (JArr xs)"
| "csv_field (JObj kvs) = PyRepr (JObj kvs)"

text \<open>\<^verbatim>\<open>isinstance(value, (dict, list))\<close>\<close>

fun is_compound :: "json \<Rightarrow> bool" where
  "is_compound (JArr xs) = True"
| "is_compound (JObj kvs) = True"
| "is_compound _ = False"

text \<open>The loop of \<^verbatim>\<open>collect_attribute_keys\<close>: \<^verbatim>\<open>keys.update(attrs.keys())\<close> for each object.\<close>

fun collect_loop :: "json list \<Rightarrow> string set \<Rightarrow> error + string set" where
  "collect_loop [] keys = Inr keys"
| "collect_loop (obj # objs) keys =
     (case py_get obj ''attributes'' JNull of
        Inl e \<Rightarrow> Inl e
      | Inr a \<Rightarrow>
          (case py_or a (JObj []) of
             JObj attrs \<Rightarrow> collect_loop objs (keys \<union> set (map fst attrs))
           | _ \<Rightarrow> Inl AttributeError))"

definition collect_attribute_keys :: "json list \<Rightarrow> error + string list" where
  "collect_attribute_keys objects =
     (case collect_loop objects {} of
        Inl e \<Rightarrow> Inl e
      | Inr keys \<Rightarrow> Inr (sorted_list_of_set keys))"

type_synonym row = "(string \<times> json) list"

text \<open>The loop over \<^verbatim>\<open>attr_keys\<close> that fills one row.\<close>

fun fill_attrs :: "json \<Rightarrow> string list \<Rightarrow> row \<Rightarrow> error + row" where
  "fill_attrs attrs [] row = Inr row"
| "fill_attrs attrs (key # keys) row =
     (case py_get attrs key JNull of
        Inl e \<Rightarrow> Inl e
      | Inr v \<Rightarrow>
          fill_attrs attrs keys
            (AList.update key (if is_compound v then JStr (json_dumps v) else v) row))"

text \<open>The body of the loop over the objects, up to the call of \<^verbatim>\<open>writer.writerow\<close>.\<close>

definition build_row :: "string list \<Rightarrow> string list \<Rightarrow> json \<Rightarrow> error + row" where
  "build_row fieldnames attr_keys obj =
     (let row0 = fold (\<lambda>k r. AList.update k (JStr []) r) fieldnames [] in
      (case py_get obj ''url'' (JStr []) of Inl e \<Rightarrow> Inl e | Inr u \<Rightarrow>
      (case py_get obj ''type'' (JStr []) of Inl e \<Rightarrow> Inl e | Inr t \<Rightarrow>
      (case py_get obj ''exact'' (JStr []) of Inl e \<Rightarrow> Inl e | Inr x \<Rightarrow>
      (let row1 = AList.update ''exact'' x (AList.update ''type'' t (AList.update ''url'' u row0)) in
      (case py_get obj ''attributes'' JNull of Inl e \<Rightarrow> Inl e | Inr a \<Rightarrow>
      (case fill_attrs (py_or a (JObj [])) attr_keys row1 of Inl e \<Rightarrow> Inl e | Inr row2 \<Rightarrow>
      (case py_get obj ''nested'' (JArr []) of Inl e \<Rightarrow> Inl e | Inr n \<Rightarrow>
       Inr (AList.update ''nested'' (JStr (json_dumps n)) row2)))))))))"

text \<open>
  \<^verbatim>\<open>csv.DictWriter.writerow\<close>: a key of the row that is no field name is refused
  (\<^verbatim>\<open>extrasaction="raise"\<close>); otherwise the cells are the row's values in the order of the
  field names, \<^verbatim>\<open>restval\<close> (the empty string) where the row has no such key.
\<close>

definition writerow :: "string list \<Rightarrow> row \<Rightarrow> error + cell list" where
  "writerow fieldnames row =
     (if \<exists>k \<in> set (map fst row). k \<notin> set fieldnames then Inl ValueError
      else Inr (map (\<lambda>k. csv_field (dict_get row k (JStr []))) fieldnames))"

fun write_rows :: "string list \<Rightarrow> string list \<Rightarrow> json list \<Rightarrow> error + cell list list" where
  "write_rows fieldnames attr_keys [] = Inr []"
| "write_rows fieldnames attr_keys (obj # objs) =
     (case build_row fieldnames attr_keys obj of Inl e \<Rightarrow> Inl e | Inr row \<Rightarrow>
     (case writerow fieldnames row of Inl e \<Rightarrow> Inl e | Inr cells \<Rightarrow>
     (case write_rows fieldnames attr_keys objs of Inl e \<Rightarrow> Inl e | Inr rest \<Rightarrow>
      Inr (cells # rest))))"

record csv_file =
  header :: "string list"
  rows :: "cell list list"

text \<open>
  \<^verbatim>\<open>write_objects_to_csv\<close>, as the content of the file it writes. Creating the directory
  and opening the file are not modelled, nor what is left on disk when a row fails.
\<close>

definition write_objects_to_csv :: "json list \<Rightarrow> error + csv_file" where
  "write_objects_to_csv objects =
     (case collect_attribute_keys objects of Inl e \<Rightarrow> Inl e | Inr attr_keys \<Rightarrow>
     (let fieldnames = [''url'', ''type'', ''exact''] @ attr_keys @ [''nested''] in
     (case write_rows fieldnames attr_keys objects of Inl e \<Rightarrow> Inl e | Inr rs \<Rightarrow>
      Inr \<lparr>header = fieldnames, rows = rs\<rparr>)))"

section \<open>Signer\<close>

text \<open>
  The module's settings and the library functions the signer relies on.
  \<^verbatim>\<open>PUBLIC_KEY\<close> and \<^verbatim>\<open>PRIVATE_KEY\<close> are read with \<^verbatim>\<open>os.getenv\<close>, which gives \<^verbatim>\<open>None\<close> for
  a variable that is not set. \<open>hmac_sha256 key msg\<close> stands for
  \<^verbatim>\<open>hmac.new(key, msg, hashlib.sha256).digest()\<close>, and \<open>netloc_invalid\<close> for the checks
  of the network location on which \<^verbatim>\<open>urlsplit\<close> raises \<^verbatim>\<open>ValueError\<close> (unmatched brackets,
  a bracketed host that is no IP literal, characters that normalise to a delimiter).
\<close>

record env =
  PUBLIC_KEY :: "string option"
  PRIVATE_KEY :: "string option"
  HIT_FIELDS :: "string list"
  REQUESTED_TYPES :: "string list"
  hmac_sha256 :: "string \<Rightarrow> string \<Rightarrow> string"
  netloc_invalid :: "string \<Rightarrow> bool"

definition PAGE_SIZE :: int where
  "PAGE_SIZE = 500"

definition BASE_URL :: string where
  "BASE_URL = ''https://live.luigisbox.com''"

definition CONTENT_TYPE :: string where
  "CONTENT_TYPE = ''application/json; charset=utf-8''"

text \<open>\<^verbatim>\<open>base64.b64encode\<close>: three bytes become four characters, the rest is padded.\<close>

definition b64_alphabet :: string where
  "b64_alphabet = ''ABCDEFGHIJKLMNOPQRSTUVWXYZabcdefghijklmnopqrstuvwxyz0123456789+/''"

definition b64_char :: "nat \<Rightarrow> char" where
  "b64_char n = b64_alphabet ! (n mod 64)"

fun b64encode :: "string \<Rightarrow> string" where
  "b64encode [] = []"
| "b64encode [a] =
     (let x = (of_char a :: nat) in
      [b64_char (x div 4), b64_char ((x mod 4) * 16), CHR ''='', CHR ''=''])"
| "b64encode [a, b] =
     (let x = (of_char a :: nat); y = (of_char b :: nat) in
      [b64_char (x div 4), b64_char ((x mod 4) * 16 + y div 16),
       b64_char ((y mod 16) * 4), CHR ''=''])"
| "b64encode (a # b # c # rest) =
     (let x = (of_char a :: nat); y = (of_char b :: nat); z = (of_char c :: nat) in
      [b64_char (x div 4), b64_char ((x mod 4) * 16 + y div 16),
       b64_char ((y mod 16) * 4 + z div 64), b64_char (z mod 64)] @ b64encode rest)"

text \<open>
  \<^verbatim>\<open>str.strip()\<close> on ASCII text, which is all it is applied to here (the result of
  \<^verbatim>\<open>.decode("ascii")\<close>): the white space of ASCII is \<open>0x09\<close> to \<open>0x0D\<close>, \<open>0x1C\<close> to \<open>0x20\<close>.
\<close>

definition is_space :: "char \<Rightarrow> bool" where
  "is_space c = (let n = (of_char c :: nat) in (9 \<le> n \<and> n \<le> 13) \<or> (28 \<le> n \<and> n \<le> 32))"

definition py_strip :: "string \<Rightarrow> string" where
  "py_strip s = rev (dropWhile is_space (rev (dropWhile is_space s)))"

definition compute_digest ::
  "env \<Rightarrow> string option \<Rightarrow> string \<Rightarrow> string \<Rightarrow> string \<Rightarrow> string \<Rightarrow> error + string" where
  "compute_digest env private_key method endpoint date_str content_type =
     (let data = method @ [CHR 0x0A] @ content_type @ [CHR 0x0A] @ date_str @ [CHR 0x0A] @ endpoint in
      (case private_key of
         None \<Rightarrow> Inl AttributeError
       | Some key \<Rightarrow> Inr (py_strip (b64encode (hmac_sha256 env key data)))))"

text \<open>
  The path that \<^verbatim>\<open>urllib.parse.urlparse\<close> gives (CPython 3.12). Leading control characters
  and spaces are dropped and tab, carriage return and line feed removed; a scheme is split
  off at the first colon when everything before it is a letter followed by scheme
  characters; after \<^verbatim>\<open>//\<close> the network location reaches to the first of \<^verbatim>\<open>/ ? #\<close>; the
  fragment and then the query are cut off; and for the schemes that have parameters the
  last segment of the path ends at its first semicolon.
\<close>

definition is_c0_or_space :: "char \<Rightarrow> bool" where
  "is_c0_or_space c = ((of_char c :: nat) \<le> 32)"

definition is_unsafe :: "char \<Rightarrow> bool" where
  "is_unsafe c = (c = CHR 0x09 \<or> c = CHR 0x0D \<or> c = CHR 0x0A)"

definition is_ascii_alpha :: "char \<Rightarrow> bool" where
  "is_ascii_alpha c =
     (let n = (of_char c :: nat) in (65 \<le> n \<and> n \<le> 90) \<or> (97 \<le> n \<and> n \<le> 122))"

definition is_ascii_digit :: "char \<Rightarrow> bool" where
  "is_ascii_digit c = (let n = (of_char c :: nat) in 48 \<le> n \<and> n \<le> 57)"

definition is_scheme_char :: "char \<Rightarrow> bool" where
  "is_scheme_char c =
     (is_ascii_alpha c \<or> is_ascii_digit c \<or> c = CHR ''+'' \<or> c = CHR ''-'' \<or> c = CHR ''.'')"

definition ascii_lower :: "char \<Rightarrow> char" where
  "ascii_lower c =
     (let n = (of_char c :: nat) in if 65 \<le> n \<and> n \<le> 90 then char_of (n + 32) else c)"

definition uses_params :: "string list" where
  "uses_params = [[], ''ftp'', ''hdl'', ''prospero'', ''http'', ''imap'', ''https'', ''shttp'',
     ''rtsp'', ''rtspu'', ''sip'', ''sips'', ''mms'', ''sftp'', ''tel'']"

definition split_scheme :: "string \<Rightarrow> string \<times> string" where
  "split_scheme url =
     (let pre = takeWhile (\<lambda>c. c \<noteq> CHR '':'') url in
      if CHR '':'' \<in> set url \<and> pre \<noteq> [] \<and> is_ascii_alpha (hd pre) \<and> list_all is_scheme_char pre
      then (map ascii_lower pre, drop (Suc (length pre)) url)
      else ([], url))"

definition is_netloc_end :: "char \<Rightarrow> bool" where
  "is_netloc_end c = (c = CHR ''/'' \<or> c = CHR ''?'' \<or> c = CHR ''#'')"

definition split_netloc :: "string \<Rightarrow> string \<times> string" where
  "split_netloc url =
     (if take 2 url = ''//''
      then (takeWhile (\<lambda>c. \<not> is_netloc_end c) (drop 2 url),
            dropWhile (\<lambda>c. \<not> is_netloc_end c) (drop 2 url))
      else ([], url))"

definition cut_fragment_query :: "string \<Rightarrow> string" where
  "cut_fragment_query url =
     takeWhile (\<lambda>c. c \<noteq> CHR ''?'') (takeWhile (\<lambda>c. c \<noteq> CHR ''#'') url)"

definition splitparams :: "string \<Rightarrow> string" where
  "splitparams url =
     (if CHR ''/'' \<in> set url then
        (let seg = rev (takeWhile (\<lambda>c. c \<noteq> CHR ''/'') (rev url));
             dir = rev (dropWhile (\<lambda>c. c \<noteq> CHR ''/'') (rev url)) in
         if CHR '';'' \<in> set seg then dir @ takeWhile (\<lambda>c. c \<noteq> CHR '';'') seg else url)
      else takeWhile (\<lambda>c. c \<noteq> CHR '';'') url)"

definition urlparse_path :: "env \<Rightarrow> json \<Rightarrow> error + string" where
  "urlparse_path env full_url =
     (case full_url of
        JStr s \<Rightarrow>
          (let url = filter (\<lambda>c. \<not> is_unsafe c) (dropWhile is_c0_or_space s);
               scheme = fst (split_scheme url);
               netloc = fst (split_netloc (snd (split_scheme url)));
               path = cut_fragment_query (snd (split_netloc (snd (split_scheme url)))) in
           if netloc_invalid env netloc then Inl ValueError
           else if scheme \<in> set uses_params \<and> CHR '';'' \<in> set path then Inr (splitparams path)
           else Inr path)
      | _ \<Rightarrow> Inl AttributeError)"

text \<open>What an f-string makes of a setting that may be \<^verbatim>\<open>None\<close>.\<close>

definition format_opt :: "string option \<Rightarrow> string" where
  "format_opt v = (case v of None \<Rightarrow> ''None'' | Some s \<Rightarrow> s)"

type_synonym headers = "(string \<times> string) list"

text \<open>
  \<^verbatim>\<open>build_signed_headers\<close>; \<open>date_str\<close> is the clock reading
  \<^verbatim>\<open>format_datetime(dt.datetime.now(dt.timezone.utc))\<close> of the call.
\<close>

definition build_signed_headers :: "env \<Rightarrow> string \<Rightarrow> json \<Rightarrow> string \<Rightarrow> error + headers" where
  "build_signed_headers env date_str full_url method =
     (case urlparse_path env full_url of Inl e \<Rightarrow> Inl e | Inr endpoint \<Rightarrow>
     (case compute_digest env (PRIVATE_KEY env) method endpoint date_str CONTENT_TYPE of
        Inl e \<Rightarrow> Inl e
      | Inr digest \<Rightarrow>
          Inr [(''Content-Type'', CONTENT_TYPE),
               (''Date'', date_str),
               (''Authorization'', ''ApiAuth '' @ format_opt (PUBLIC_KEY env) @ '':'' @ digest),
               (''Accept-Encoding'', ''gzip, deflate'')]))"

section \<open>Paginator\<close>

text \<open>
  \<^verbatim>\<open>urlencode\<close> with \<^verbatim>\<open>quote_plus\<close>: letters, digits and \<^verbatim>\<open>_ . - ~\<close> stay, a space becomes
  \<^verbatim>\<open>+\<close>, every other byte is \<^verbatim>\<open>%XX\<close>.
\<close>

definition upper_hex :: "nat \<Rightarrow> char" where
  "upper_hex d = (if d < 10 then char_of (48 + d) else char_of (55 + d))"

definition quote_plus_char :: "char \<Rightarrow> string" where
  "quote_plus_char c =
     (if is_ascii_alpha c \<or> is_ascii_digit c \<or> c = CHR ''_'' \<or> c = CHR ''.'' \<or> c = CHR ''-''
         \<or> c = CHR ''~'' then [c]
      else if c = CHR '' '' then ''+''
      else [CHR ''%'', upper_hex ((of_char c :: nat) div 16), upper_hex ((of_char c :: nat) mod 16)])"

definition quote_plus :: "string \<Rightarrow> string" where
  "quote_plus s = concat (map quote_plus_char s)"

fun join :: "string \<Rightarrow> string list \<Rightarrow> string" where
  "join sep [] = []"
| "join sep [x] = x"
| "join sep (x # y # ys) = x @ sep @ join sep (y # ys)"

definition urlencode :: "(string \<times> string) list \<Rightarrow> string" where
  "urlencode params = join ''&'' (map (\<lambda>kv. quote_plus (fst kv) @ ''='' @ quote_plus (snd kv)) params)"

definition build_first_page_url :: "env \<Rightarrow> string" where
  "build_first_page_url env =
     (let params =
            (if PAGE_SIZE \<noteq> 0 then [(''size'', show_int PAGE_SIZE)] else [])
          @ (if HIT_FIELDS env \<noteq> [] then [(''hit_fields'', join '','' (HIT_FIELDS env))] else [])
          @ (if REQUESTED_TYPES env \<noteq> []
             then [(''requested_types'', join '','' (REQUESTED_TYPES env))] else []);
          endpoint = ''/v1/content_export'';
          endpoint' = (if params \<noteq> [] then endpoint @ ''?'' @ urlencode params else endpoint)
      in BASE_URL @ endpoint')"

text \<open>
  What the server answers to one request: the status and the decoded body (\<open>None\<close> when
  the body is no JSON and \<^verbatim>\<open>resp.json()\<close> raises). An exchange is the clock reading at
  the time of the request together with the answer; a request is the URL and the headers
  that went out.
\<close>

record response =
  status_code :: nat
  body :: "json option"

type_synonym exchange = "string \<times> response"
type_synonym request = "json \<times> headers"

definition request_json :: "env \<Rightarrow> json \<Rightarrow> exchange \<Rightarrow> (error + json) \<times> request list" where
  "request_json env url ex =
     (case build_signed_headers env (fst ex) url ''GET'' of
        Inl e \<Rightarrow> (Inl e, [])
      | Inr hs \<Rightarrow>
          (if 400 \<le> status_code (snd ex) then (Inl (HTTPError (status_code (snd ex))), [(url, hs)])
           else (case body (snd ex) of
                   None \<Rightarrow> (Inl JSONDecodeError, [(url, hs)])
                 | Some data \<Rightarrow> (Inr data, [(url, hs)]))))"

text \<open>The scan of the links: the \<^verbatim>\<open>href\<close> of the first link whose \<^verbatim>\<open>rel\<close> is \<^verbatim>\<open>next\<close>.\<close>

fun scan_links :: "json list \<Rightarrow> error + json" where
  "scan_links [] = Inr JNull"
| "scan_links (link # links) =
     (case py_get link ''rel'' JNull of
        Inl e \<Rightarrow> Inl e
      | Inr rel \<Rightarrow>
          (if rel = JStr ''next'' then py_get link ''href'' JNull else scan_links links))"

definition page_objects :: "json \<Rightarrow> error + json list" where
  "page_objects data =
     (case py_get data ''objects'' (JArr []) of
        Inl e \<Rightarrow> Inl e
      | Inr objs \<Rightarrow> py_iter (py_or objs (JArr [])))"

definition next_link :: "json \<Rightarrow> error + json" where
  "next_link data =
     (case py_get data ''links'' (JArr []) of
        Inl e \<Rightarrow> Inl e
      | Inr links \<Rightarrow>
          (case py_iter (py_or links (JArr [])) of
             Inl e \<Rightarrow> Inl e
           | Inr ls \<Rightarrow> scan_links ls))"

text \<open>
  The loop of \<^verbatim>\<open>iterate_all_objects\<close>, run against the exchanges to come. Each pass takes
  the next exchange; the result is \<open>None\<close> when the loop asks for more exchanges than are
  given, and otherwise the outcome with the requests sent, in order.
\<close>

fun fetch_loop ::
  "env \<Rightarrow> json \<Rightarrow> exchange list \<Rightarrow> json list \<Rightarrow> request list \<Rightarrow>
     ((error + json list) \<times> request list) option" where
  "fetch_loop env url [] objects sent =
     (if truthy url then None else Some (Inr objects, sent))"
| "fetch_loop env url (ex # exs) objects sent =
     (if \<not> truthy url then Some (Inr objects, sent)
      else
        (case request_json env url ex of
           (Inl e, rs) \<Rightarrow> Some (Inl e, sent @ rs)
         | (Inr data, rs) \<Rightarrow>
             (case page_objects data of
                Inl e \<Rightarrow> Some (Inl e, sent @ rs)
              | Inr objs \<Rightarrow>
                  (case next_link data of
                     Inl e \<Rightarrow> Some (Inl e, sent @ rs)
                   | Inr nxt \<Rightarrow>
                       (if \<not> truthy nxt then Some (Inr (objects @ objs), sent @ rs)
                        else fetch_loop env nxt exs (objects @ objs) (sent @ rs))))))"

definition iterate_all_objects ::
  "env \<Rightarrow> exchange list \<Rightarrow> ((error + json list) \<times> request list) option" where
  "iterate_all_objects env exs = fetch_loop env (JStr (build_first_page_url env)) exs [] []"

section \<open>Orchestrator\<close>

definition unset_or_placeholder :: "string option \<Rightarrow> bool" where
  "unset_or_placeholder key =
     (case key of None \<Rightarrow> True | Some s \<Rightarrow> s = [] \<or> take 1 s = ''<'')"

definition export_catalog ::
  "env \<Rightarrow> exchange list \<Rightarrow> ((error + csv_file) \<times> request list) option" where
  "export_catalog env exs =
     (if unset_or_placeholder (PUBLIC_KEY env)
      then Some (Inl (RuntimeError ''Please set PUBLIC_KEY at the top of the script.''), [])
      else if unset_or_placeholder (PRIVATE_KEY env)
      then Some (Inl (RuntimeError ''Please set PRIVATE_KEY at the top of the script.''), [])
      else
        (case iterate_all_objects env exs of
           None \<Rightarrow> None
         | Some (Inl e, sent) \<Rightarrow> Some (Inl e, sent)
         | Some (Inr objects, sent) \<Rightarrow> Some (write_objects_to_csv objects, sent)))"

section \<open>Notions for stating the properties\<close>

text \<open>
  The attribute bag of an object: the dictionary that \<^verbatim>\<open>obj.get("attributes") or {}\<close> is,
  when the object is a dictionary and that value is one.
\<close>

definition obj_attrs :: "json \<Rightarrow> (string \<times> json) list option" where
  "obj_attrs obj =
     (case obj of
        JObj ob \<Rightarrow>
          (case py_or (dict_get ob ''attributes'' JNull) (JObj []) of
             JObj attrs \<Rightarrow> Some attrs
           | _ \<Rightarrow> None)
      | _ \<Rightarrow> None)"

definition attribute_keys :: "json \<Rightarrow> string set" where
  "attribute_keys obj = (case obj_attrs obj of None \<Rightarrow> {} | Some attrs \<Rightarrow> set (map fst attrs))"

definition all_attribute_keys :: "json list \<Rightarrow> string set" where
  "all_attribute_keys objects = (\<Union>obj \<in> set objects. attribute_keys obj)"

text \<open>What the loop over the attribute keys stores for a value.\<close>

definition rendered :: "json \<Rightarrow> json" where
  "rendered v = (if is_compound v then JStr (json_dumps v) else v)"

text \<open>
  The value a finished row holds under a column name, in closed form: the last
  assignment to that key wins.
\<close>

definition row_value :: "string list \<Rightarrow> json \<Rightarrow> string \<Rightarrow> json" where
  "row_value attr_keys obj k =
     (case obj of
        JObj ob \<Rightarrow>
          if k = ''nested'' then JStr (json_dumps (dict_get ob ''nested'' (JArr [])))
          else if k \<in> set attr_keys then
            (case obj_attrs obj of
               Some attrs \<Rightarrow> rendered (dict_get attrs k JNull)
             | None \<Rightarrow> JNull)
          else if k = ''url'' \<or> k = ''type'' \<or> k = ''exact'' then dict_get ob k (JStr [])
          else JStr []
      | _ \<Rightarrow> JNull)"

definition expected_row :: "string list \<Rightarrow> string list \<Rightarrow> json \<Rightarrow> cell list" where
  "expected_row fieldnames attr_keys obj =
     map (\<lambda>k. csv_field (row_value attr_keys obj k)) fieldnames"

definition fieldnames_of :: "json list \<Rightarrow> string list" where
  "fieldnames_of objects =
     [''url'', ''type'', ''exact''] @ sorted_list_of_set (all_attribute_keys objects) @ [''nested'']"








text \<open>
  Settings and pages for the examples: the settings of the source with keys filled in,
  and, as the key is all that matters of the MAC there, a stand-in for it.
\<close>

definition example_env :: env where
  "example_env =
     \<lparr>PUBLIC_KEY = Some ''tracker'', PRIVATE_KEY = Some ''secret'',
      HIT_FIELDS = [''title'', ''web_url''], REQUESTED_TYPES = [''serie''],
      hmac_sha256 = (\<lambda>key msg. key @ msg), netloc_invalid = (\<lambda>n. False)\<rparr>"

definition page :: "json \<Rightarrow> json list \<Rightarrow> json list \<Rightarrow> exchange" where
  "page tot objs links =
     (''Wed, 04 Nov 2026 10:00:00 +0000'',
      \<lparr>status_code = 200,
       body = Some (JObj [(''total'', tot), (''objects'', JArr objs), (''links'', JArr links)])\<rparr>)"

definition link :: "string \<Rightarrow> string \<Rightarrow> json" where
  "link rel href = JObj [(''rel'', JStr rel), (''href'', JStr href)]"


section \<open>Reading JSON text back\<close>

text \<open>
  \<^verbatim>\<open>json.loads\<close> of the standard library, which a reader of the file applies to a cell.
  It skips white space around values and delimiters, reads the three literals, numbers
  (an integer, or a float when there is a fraction or an exponent), \<^verbatim>\<open>NaN\<close> and the
  infinities, strings with their escapes, arrays and objects; anything left after the
  value is an error (\<open>None\<close>). A \<^verbatim>\<open>\u\<close> escape gives the UTF-8 bytes of its code point, a
  pair of surrogate escapes those of the code point they encode. Reading a float is the
  function \<open>fr\<close>, from the text of the number to the \<^verbatim>\<open>repr\<close> of the float it denotes. The
  recursion of the scanner is bounded by the length of the text, as every call consumes
  a character. The limit on the number of digits of an integer, which holds for writing
  as for reading, is left out.
\<close>

definition is_ws :: "char \<Rightarrow> bool" where
  "is_ws c = (c = CHR 0x20 \<or> c = CHR 0x09 \<or> c = CHR 0x0A \<or> c = CHR 0x0D)"

definition skip_ws :: "string \<Rightarrow> string" where
  "skip_ws s = dropWhile is_ws s"

definition expect :: "char \<Rightarrow> string \<Rightarrow> string option" where
  "expect c s = (case s of [] \<Rightarrow> None | x # r \<Rightarrow> if x = c then Some r else None)"

text \<open>Numbers: the pattern \<^verbatim>\<open>(-?(?:0|[1-9][0-9]*))(\.[0-9]+)?([eE][-+]?[0-9]+)?\<close>.\<close>

definition scan_integer :: "string \<Rightarrow> (string \<times> string) option" where
  "scan_integer s =
     (let sign = takeWhile (\<lambda>c. c = CHR ''-'') (take 1 s) in
      (case drop (length sign) s of
         [] \<Rightarrow> None
       | c # cs \<Rightarrow>
           if c = CHR ''0'' then Some (sign @ [c], cs)
           else if is_ascii_digit c
           then Some (sign @ c # takeWhile is_ascii_digit cs, dropWhile is_ascii_digit cs)
           else None))"

definition scan_digits :: "string \<Rightarrow> (string \<times> string) option" where
  "scan_digits s =
     (if s \<noteq> [] \<and> is_ascii_digit (hd s)
      then Some (takeWhile is_ascii_digit s, dropWhile is_ascii_digit s)
      else None)"

definition scan_frac :: "string \<Rightarrow> string \<times> string" where
  "scan_frac s =
     (case s of
        [] \<Rightarrow> ([], s)
      | c # cs \<Rightarrow>
          if c = CHR ''.''
          then (case scan_digits cs of Some (ds, r) \<Rightarrow> (c # ds, r) | None \<Rightarrow> ([], s))
          else ([], s))"

definition scan_exp :: "string \<Rightarrow> string \<times> string" where
  "scan_exp s =
     (case s of
        [] \<Rightarrow> ([], s)
      | c # cs \<Rightarrow>
          if c = CHR ''e'' \<or> c = CHR ''E''
          then (let sg = takeWhile (\<lambda>c. c = CHR ''+'' \<or> c = CHR ''-'') (take 1 cs) in
                (case scan_digits (drop (length sg) cs) of
                   Some (ds, r) \<Rightarrow> (c # sg @ ds, r)
                 | None \<Rightarrow> ([], s)))
          else ([], s))"

definition scan_number :: "string \<Rightarrow> (string \<times> bool \<times> string) option" where
  "scan_number s =
     (case scan_integer s of
        None \<Rightarrow> None
      | Some (i, r) \<Rightarrow>
          (let f = scan_frac r; e = scan_exp (snd f) in
           Some (i @ fst f @ fst e, fst f \<noteq> [] \<or> fst e \<noteq> [], snd e)))"

definition digit_val :: "char \<Rightarrow> nat" where
  "digit_val c = of_char c - 48"

definition nat_of_digits :: "string \<Rightarrow> nat" where
  "nat_of_digits ds = foldl (\<lambda>n c. 10 * n + digit_val c) 0 ds"

definition int_of_text :: "string \<Rightarrow> int" where
  "int_of_text s =
     (if take 1 s = ''-'' then - int (nat_of_digits (drop 1 s)) else int (nat_of_digits s))"

text \<open>Strings: the escapes after a backslash, with the number of characters they take.\<close>

definition is_hex :: "char \<Rightarrow> bool" where
  "is_hex c =
     (let n = (of_char c :: nat) in
      (48 \<le> n \<and> n \<le> 57) \<or> (65 \<le> n \<and> n \<le> 70) \<or> (97 \<le> n \<and> n \<le> 102))"

definition hex_val :: "char \<Rightarrow> nat" where
  "hex_val c =
     (let n = (of_char c :: nat) in
      if n \<le> 57 then n - 48 else if n \<le> 70 then n - 55 else n - 87)"

definition hex4 :: "string \<Rightarrow> nat option" where
  "hex4 s =
     (if length (take 4 s) = 4 \<and> list_all is_hex (take 4 s)
      then Some (foldl (\<lambda>n c. 16 * n + hex_val c) 0 (take 4 s))
      else None)"

definition utf8 :: "nat \<Rightarrow> string" where
  "utf8 n =
     (if n < 0x80 then [char_of n]
      else if n < 0x800 then [char_of (0xC0 + n div 64), char_of (0x80 + n mod 64)]
      else if n < 0x10000 then
        [char_of (0xE0 + n div 4096), char_of (0x80 + n div 64 mod 64), char_of (0x80 + n mod 64)]
      else
        [char_of (0xF0 + n div 262144), char_of (0x80 + n div 4096 mod 64),
         char_of (0x80 + n div 64 mod 64), char_of (0x80 + n mod 64)])"

definition unescape :: "string \<Rightarrow> (string \<times> nat) option" where
  "unescape s =
     (case s of
        [] \<Rightarrow> None
      | e # r \<Rightarrow>
          if e = CHR ''u'' then
            (case hex4 r of
               None \<Rightarrow> None
             | Some uni \<Rightarrow>
                 if 0xD800 \<le> uni \<and> uni \<le> 0xDBFF \<and> take 2 (drop 4 r) = [CHR 0x5C, CHR ''u'']
                 then (case hex4 (drop 6 r) of
                         None \<Rightarrow> None
                       | Some uni2 \<Rightarrow>
                           if 0xDC00 \<le> uni2 \<and> uni2 \<le> 0xDFFF
                           then Some (utf8 (0x10000 + (uni - 0xD800) * 1024 + (uni2 - 0xDC00)), 11)
                           else Some (utf8 uni, 5))
                 else Some (utf8 uni, 5))
          else if e = CHR 0x22 \<or> e = CHR 0x5C \<or> e = CHR ''/'' then Some ([e], 1)
          else if e = CHR ''b'' then Some ([CHR 0x08], 1)
          else if e = CHR ''f'' then Some ([CHR 0x0C], 1)
          else if e = CHR ''n'' then Some ([CHR 0x0A], 1)
          else if e = CHR ''r'' then Some ([CHR 0x0D], 1)
          else if e = CHR ''t'' then Some ([CHR 0x09], 1)
          else None)"

text \<open>
  \<^verbatim>\<open>scanstring\<close>, from the character after the opening quote: the content and what follows
  the closing quote. A control character that is not escaped is an error.
\<close>

function scanstring :: "string \<Rightarrow> (string \<times> string) option" where
  "scanstring [] = None"
| "scanstring (c # cs) =
     (if c = CHR 0x22 then Some ([], cs)
      else if c = CHR 0x5C then
        (case unescape cs of
           None \<Rightarrow> None
         | Some (bytes, k) \<Rightarrow>
             (case scanstring (drop k cs) of
                None \<Rightarrow> None
              | Some (t, r) \<Rightarrow> Some (bytes @ t, r)))
      else if (of_char c :: nat) < 32 then None
      else (case scanstring cs of None \<Rightarrow> None | Some (t, r) \<Rightarrow> Some (c # t, r)))"
  by pat_completeness auto
termination
  by (relation "measure length") auto

text \<open>\<^verbatim>\<open>dict(pairs)\<close>: a key that comes again keeps its place and takes the later value.\<close>

definition dict_of :: "(string \<times> json) list \<Rightarrow> (string \<times> json) list" where
  "dict_of pairs = fold (\<lambda>kv d. AList.update (fst kv) (snd kv) d) pairs []"

text \<open>
  The scanner. \<open>parse_items\<close> is the loop of an array, at a value; \<open>parse_members\<close> the
  loop of an object, after the opening quote of a key.
\<close>

fun parse_value :: "(string \<Rightarrow> string) \<Rightarrow> nat \<Rightarrow> string \<Rightarrow> (json \<times> string) option"
  and parse_items :: "(string \<Rightarrow> string) \<Rightarrow> nat \<Rightarrow> string \<Rightarrow> (json list \<times> string) option"
  and parse_members ::
    "(string \<Rightarrow> string) \<Rightarrow> nat \<Rightarrow> string \<Rightarrow> ((string \<times> json) list \<times> string) option" where
  "parse_value fr 0 s = None"
| "parse_value fr (Suc n) s =
     (if take 1 s = [CHR 0x22] then
        (case scanstring (drop 1 s) of None \<Rightarrow> None | Some (t, r) \<Rightarrow> Some (JStr t, r))
      else if take 1 s = ''{'' then
        (case expect CHR ''}'' (skip_ws (drop 1 s)) of
           Some r \<Rightarrow> Some (JObj [], r)
         | None \<Rightarrow>
             (case expect CHR 0x22 (skip_ws (drop 1 s)) of
                None \<Rightarrow> None
              | Some r \<Rightarrow>
                  (case parse_members fr n r of
                     None \<Rightarrow> None
                   | Some (kvs, r') \<Rightarrow> Some (JObj (dict_of kvs), r'))))
      else if take 1 s = ''['' then
        (case expect CHR '']'' (skip_ws (drop 1 s)) of
           Some r \<Rightarrow> Some (JArr [], r)
         | None \<Rightarrow>
             (case parse_items fr n (skip_ws (drop 1 s)) of
                None \<Rightarrow> None
              | Some (xs, r') \<Rightarrow> Some (JArr xs, r')))
      else if take 4 s = ''null'' then Some (JNull, drop 4 s)
      else if take 4 s = ''true'' then Some (JBool True, drop 4 s)
      else if take 5 s = ''false'' then Some (JBool False, drop 5 s)
      else
        (case scan_number s of
           Some (text, is_float, r) \<Rightarrow>
             Some (if is_float then JFloat (fr text) else JInt (int_of_text text), r)
         | None \<Rightarrow>
             if take 3 s = ''NaN'' then Some (JFloat ''nan'', drop 3 s)
             else if take 8 s = ''Infinity'' then Some (JFloat ''inf'', drop 8 s)
             else if take 9 s = ''-Infinity'' then Some (JFloat ''-inf'', drop 9 s)
             else None))"
| "parse_items fr 0 s = None"
| "parse_items fr (Suc n) s =
     (case parse_value fr n s of
        None \<Rightarrow> None
      | Some (x, r) \<Rightarrow>
          (case expect CHR '']'' (skip_ws r) of
             Some r' \<Rightarrow> Some ([x], r')
           | None \<Rightarrow>
               (case expect CHR '','' (skip_ws r) of
                  None \<Rightarrow> None
                | Some r' \<Rightarrow>
                    (case parse_items fr n (skip_ws r') of
                       None \<Rightarrow> None
                     | Some (xs, r'') \<Rightarrow> Some (x # xs, r'')))))"
| "parse_members fr 0 s = None"
| "parse_members fr (Suc n) s =
     (case scanstring s of
        None \<Rightarrow> None
      | Some (key, r) \<Rightarrow>
          (case expect CHR '':'' (skip_ws r) of
             None \<Rightarrow> None
           | Some r1 \<Rightarrow>
               (case parse_value fr n (skip_ws r1) of
                  None \<Rightarrow> None
                | Some (v, r2) \<Rightarrow>
                    (case expect CHR ''}'' (skip_ws r2) of
                       Some r' \<Rightarrow> Some ([(key, v)], r')
                     | None \<Rightarrow>
                         (case expect CHR '','' (skip_ws r2) of
                            None \<Rightarrow> None
                          | Some r3 \<Rightarrow>
                              (case expect CHR 0x22 (skip_ws r3) of
                                 None \<Rightarrow> None
                               | Some r4 \<Rightarrow>
                                   (case parse_members fr n r4 of
                                      None \<Rightarrow> None
                                    | Some (kvs, r') \<Rightarrow> Some ((key, v) # kvs, r'))))))))"

definition json_loads :: "(string \<Rightarrow> string) \<Rightarrow> string \<Rightarrow> json option" where
  "json_loads fr s =
     (if take 3 s = [CHR 0xEF, CHR 0xBB, CHR 0xBF] then None
      else (case parse_value fr (length s) (skip_ws s) of
              None \<Rightarrow> None
            | Some (v, r) \<Rightarrow> if skip_ws r = [] then Some v else None))"

text \<open>
  The values that \<^verbatim>\<open>resp.json()\<close> delivers: the keys of a dictionary are distinct, and a
  float is given by its \<^verbatim>\<open>repr\<close>, which is \<^verbatim>\<open>inf\<close>, \<^verbatim>\<open>-inf\<close>, \<^verbatim>\<open>nan\<close> or a number with a
  fraction or an exponent that reads as the float it is the \<^verbatim>\<open>repr\<close> of.
\<close>

definition float_repr :: "(string \<Rightarrow> string) \<Rightarrow> string \<Rightarrow> bool" where
  "float_repr fr r =
     (r = ''inf'' \<or> r = ''-inf'' \<or> r = ''nan'' \<or> (scan_number r = Some (r, True, []) \<and> fr r = r))"

fun py_value :: "(string \<Rightarrow> string) \<Rightarrow> json \<Rightarrow> bool"
  and py_values :: "(string \<Rightarrow> string) \<Rightarrow> json list \<Rightarrow> bool"
  and py_members :: "(string \<Rightarrow> string) \<Rightarrow> (string \<times> json) list \<Rightarrow> bool" where
  "py_value fr JNull = True"
| "py_value fr (JBool b) = True"
| "py_value fr (JInt i) = True"
| "py_value fr (JFloat r) = float_repr fr r"
| "py_value fr (JStr s) = True"
| "py_value fr (JArr xs) = py_values fr xs"
| "py_value fr (JObj kvs) = (distinct (map fst kvs) \<and> py_members fr kvs)"
| "py_values fr [] = True"
| "py_values fr (x # xs) = (py_value fr x \<and> py_values fr xs)"
| "py_members fr [] = True"
| "py_members fr (kv # kvs) = (py_value fr (snd kv) \<and> py_members fr kvs)"

text \<open>What can follow a value in a JSON text.\<close>

definition value_end :: "string \<Rightarrow> bool" where
  "value_end rest = (rest = [] \<or> hd rest = CHR '','' \<or> hd rest = CHR '']'' \<or> hd rest = CHR ''}'')"

section \<open>The flattener, in closed form\<close>

lemma finite_attribute_keys: "finite (attribute_keys obj)"
  by (simp add: attribute_keys_def split: option.splits)

lemma finite_all_attribute_keys: "finite (all_attribute_keys objects)"
  by (simp add: all_attribute_keys_def finite_attribute_keys)

lemma collect_loop_Inr:
  "collect_loop objs K = Inr K' \<Longrightarrow>
     K' = K \<union> all_attribute_keys objs \<and> (\<forall>obj \<in> set objs. obj_attrs obj \<noteq> None)"
proof (induction objs arbitrary: K)
  case Nil
  then show ?case by (simp add: all_attribute_keys_def)
next
  case (Cons obj objs)
  from Cons.prems obtain ob attrs where
    ob: "obj = JObj ob" and
    attrs: "py_or (dict_get ob ''attributes'' JNull) (JObj []) = JObj attrs" and
    rest: "collect_loop objs (K \<union> set (map fst attrs)) = Inr K'"
    by (auto simp: py_get_def split: json.splits)
  have oa: "obj_attrs obj = Some attrs"
    using ob attrs by (simp add: obj_attrs_def)
  from Cons.IH [OF rest] oa show ?case
    by (auto simp: attribute_keys_def all_attribute_keys_def)
qed

lemma collect_loop_ok:
  "\<forall>obj \<in> set objs. obj_attrs obj \<noteq> None \<Longrightarrow>
     collect_loop objs K = Inr (K \<union> all_attribute_keys objs)"
proof (induction objs arbitrary: K)
  case Nil
  then show ?case by (simp add: all_attribute_keys_def)
next
  case (Cons obj objs)
  then obtain attrs where oa: "obj_attrs obj = Some attrs" by auto
  then obtain ob where ob: "obj = JObj ob"
    and attrs: "py_or (dict_get ob ''attributes'' JNull) (JObj []) = JObj attrs"
    by (auto simp: obj_attrs_def split: json.splits)
  have "collect_loop (obj # objs) K = collect_loop objs (K \<union> set (map fst attrs))"
    using ob attrs by (simp add: py_get_def)
  also have "\<dots> = Inr ((K \<union> set (map fst attrs)) \<union> all_attribute_keys objs)"
    using Cons by simp
  finally show ?case
    using oa by (simp add: attribute_keys_def all_attribute_keys_def Un_assoc)
qed

lemma fill_attrs_dict:
  "\<exists>row'. fill_attrs (JObj attrs) keys row = Inr row' \<and>
     map_of row' = (\<lambda>k. if k \<in> set keys then Some (rendered (dict_get attrs k JNull)) else map_of row k) \<and>
     fst ` set row' = set keys \<union> fst ` set row"
proof (induction keys arbitrary: row)
  case Nil
  then show ?case by simp
next
  case (Cons key keys)
  let ?row1 = "AList.update key (rendered (dict_get attrs key JNull)) row"
  from Cons.IH [of ?row1] obtain row' where
    r: "fill_attrs (JObj attrs) keys ?row1 = Inr row'" and
    m: "map_of row' = (\<lambda>k. if k \<in> set keys then Some (rendered (dict_get attrs k JNull)) else map_of ?row1 k)" and
    d: "fst ` set row' = set keys \<union> fst ` set ?row1"
    by blast
  have "fill_attrs (JObj attrs) (key # keys) row = Inr row'"
    using r by (simp add: py_get_def rendered_def)
  moreover have "map_of row' = (\<lambda>k. if k \<in> set (key # keys) then Some (rendered (dict_get attrs k JNull)) else map_of row k)"
    unfolding m by (auto simp: update_conv fun_eq_iff)
  moreover have "fst ` set row' = set (key # keys) \<union> fst ` set row"
    unfolding d by (auto simp: dom_update)
  ultimately show ?case by blast
qed

lemma row0_map:
  "map_of (fold (\<lambda>k r. AList.update k v r) ks r0) = (\<lambda>k. if k \<in> set ks then Some v else map_of r0 k)"
  by (induction ks arbitrary: r0) (auto simp: update_conv fun_eq_iff)

lemma row0_keys:
  "fst ` set (fold (\<lambda>k r. AList.update k v r) ks r0) = set ks \<union> fst ` set r0"
  by (induction ks arbitrary: r0) (auto simp: dom_update)

lemma build_row_ok:
  assumes oa: "obj_attrs obj = Some attrs"
    and fn: "{''url'', ''type'', ''exact'', ''nested''} \<union> set ak \<subseteq> set fn"
  shows "\<exists>row. build_row fn ak obj = Inr row \<and> fst ` set row = set fn \<and>
           (\<forall>k \<in> set fn. map_of row k = Some (row_value ak obj k))"
proof -
  from oa obtain ob where ob: "obj = JObj ob"
    and attrs: "py_or (dict_get ob ''attributes'' JNull) (JObj []) = JObj attrs"
    by (auto simp: obj_attrs_def split: json.splits)
  define row0 where "row0 = fold (\<lambda>k r. AList.update k (JStr []) r) fn []"
  define row1 where "row1 = AList.update ''exact'' (dict_get ob ''exact'' (JStr []))
     (AList.update ''type'' (dict_get ob ''type'' (JStr []))
       (AList.update ''url'' (dict_get ob ''url'' (JStr [])) row0))"
  obtain row2 where
    r2: "fill_attrs (JObj attrs) ak row1 = Inr row2" and
    m2: "map_of row2 = (\<lambda>k. if k \<in> set ak then Some (rendered (dict_get attrs k JNull)) else map_of row1 k)" and
    d2: "fst ` set row2 = set ak \<union> fst ` set row1"
    using fill_attrs_dict [of attrs ak row1] by blast
  define row3 where "row3 = AList.update ''nested'' (JStr (json_dumps (dict_get ob ''nested'' (JArr [])))) row2"
  have b: "build_row fn ak obj = Inr row3"
    using r2 attrs
    by (simp add: build_row_def ob py_get_def row0_def [symmetric] row1_def [symmetric] row3_def)
  have d0: "fst ` set row0 = set fn"
    by (simp add: row0_def row0_keys)
  have d1: "fst ` set row1 = set fn"
    using fn by (auto simp: row1_def dom_update d0)
  have d3: "fst ` set row3 = set fn"
    using fn by (auto simp: row3_def dom_update d2 d1)
  have m0: "map_of row0 = (\<lambda>k. if k \<in> set fn then Some (JStr []) else None)"
    by (simp add: row0_def row0_map fun_eq_iff)
  have m3: "map_of row3 k = Some (row_value ak obj k)" if "k \<in> set fn" for k
    using that oa
    by (simp add: row3_def update_conv m2 row1_def m0 row_value_def ob)
  show ?thesis using b d3 m3 by blast
qed

lemma writerow_ok:
  assumes "fst ` set row = set fn" and "\<forall>k \<in> set fn. map_of row k = Some (f k)"
  shows "writerow fn row = Inr (map (\<lambda>k. csv_field (f k)) fn)"
  using assms by (auto simp: writerow_def dict_get_def)

lemma write_rows_ok:
  assumes "\<forall>obj \<in> set objs. obj_attrs obj \<noteq> None"
    and fn: "{''url'', ''type'', ''exact'', ''nested''} \<union> set ak \<subseteq> set fn"
  shows "write_rows fn ak objs = Inr (map (expected_row fn ak) objs)"
  using assms(1)
proof (induction objs)
  case Nil
  then show ?case by simp
next
  case (Cons obj objs)
  then obtain attrs where oa: "obj_attrs obj = Some attrs" by auto
  from build_row_ok [OF oa fn] obtain row where
    b: "build_row fn ak obj = Inr row" and d: "fst ` set row = set fn" and
    m: "\<forall>k \<in> set fn. map_of row k = Some (row_value ak obj k)"
    by blast
  have w: "writerow fn row = Inr (expected_row fn ak obj)"
    unfolding expected_row_def by (rule writerow_ok [OF d m])
  show ?case using Cons b w by simp
qed

lemma write_objects_to_csv_ok:
  assumes "\<forall>obj \<in> set objects. obj_attrs obj \<noteq> None"
  shows "write_objects_to_csv objects =
           Inr \<lparr>header = fieldnames_of objects,
                rows = map (expected_row (fieldnames_of objects)
                              (sorted_list_of_set (all_attribute_keys objects))) objects\<rparr>"
proof -
  let ?ak = "sorted_list_of_set (all_attribute_keys objects)"
  have c: "collect_attribute_keys objects = Inr ?ak"
    using collect_loop_ok [OF assms, of "{}"] by (simp add: collect_attribute_keys_def)
  have fn: "{''url'', ''type'', ''exact'', ''nested''} \<union> set ?ak \<subseteq> set (fieldnames_of objects)"
    by (auto simp: fieldnames_of_def)
  show ?thesis
    using c write_rows_ok [OF assms fn]
    unfolding write_objects_to_csv_def fieldnames_of_def by (simp add: Let_def)
qed

lemma write_objects_to_csv_Inr:
  assumes "write_objects_to_csv objects = Inr f"
  shows "(\<forall>obj \<in> set objects. obj_attrs obj \<noteq> None) \<and>
         header f = fieldnames_of objects \<and>
         rows f = map (expected_row (fieldnames_of objects)
                         (sorted_list_of_set (all_attribute_keys objects))) objects"
proof -
  from assms obtain K where "collect_loop objects {} = Inr K"
    by (auto simp: write_objects_to_csv_def collect_attribute_keys_def split: sum.splits)
  from collect_loop_Inr [OF this] have ok: "\<forall>obj \<in> set objects. obj_attrs obj \<noteq> None"
    by blast
  from write_objects_to_csv_ok [OF ok] assms show ?thesis
    using ok by auto
qed

lemma cell_at:
  assumes "write_objects_to_csv objects = Inr f"
    and "i < length objects" and "j < length (header f)"
  shows "rows f ! i ! j =
           csv_field (row_value (sorted_list_of_set (all_attribute_keys objects)) (objects ! i)
                        (header f ! j))"
  using write_objects_to_csv_Inr [OF assms(1)] assms(2,3)
  by (simp add: expected_row_def)

lemma count_list_distinct:
  "distinct xs \<Longrightarrow> count_list xs x = (if x \<in> set xs then 1 else 0)"
  by (induction xs) auto

section \<open>The paginator on a run of good pages\<close>









section \<open>Termination of the pagination\<close>





section \<open>The next link that is followed\<close>

lemma scan_links_first:
  assumes "\<forall>l \<in> set pre. \<exists>kvs. l = JObj kvs \<and> dict_get kvs ''rel'' JNull \<noteq> JStr ''next''"
    and "dict_get lk ''rel'' JNull = JStr ''next''"
  shows "scan_links (pre @ JObj lk # post) = Inr (dict_get lk ''href'' JNull)"
  using assms(1)
proof (induction pre)
  case Nil
  show ?case using assms(2) by (simp add: py_get_def)
next
  case (Cons l pre)
  then obtain kvs where "l = JObj kvs" "dict_get kvs ''rel'' JNull \<noteq> JStr ''next''"
    by auto
  with Cons show ?case by (simp add: py_get_def)
qed

lemma page_objects_update_links:
  "page_objects (JObj (AList.update ''links'' v kvs)) = page_objects (JObj kvs)"
  by (simp add: page_objects_def py_get_def dict_get_def update_conv)

lemma next_link_no_links:
  "next_link (JObj (AList.update ''links'' (JArr []) kvs)) = Inr JNull"
  by (simp add: next_link_def py_get_def dict_get_def update_conv py_or_def)

text \<open>
  Claim C9. On a page whose links hold, after entries of other relations, an entry of
  relation \<open>next\<close>, the next link is the \<open>href\<close> of that first entry, whatever follows it.
  When that \<open>href\<close> is absent, null or the empty string, the loop does on this page what
  it does on the same page with an empty list of links, and it ends there. When it is a
  non-empty string, the loop goes on with that URL.
\<close>

theorem falsy_href_ends_pagination:
  assumes "map_of kvs ''links'' = Some (JArr (pre @ JObj lk # post))"
    and "\<forall>l \<in> set pre. \<exists>kvs. l = JObj kvs \<and> dict_get kvs ''rel'' JNull \<noteq> JStr ''next''"
    and "dict_get lk ''rel'' JNull = JStr ''next''"
  shows "next_link (JObj kvs) = Inr (dict_get lk ''href'' JNull) \<and>
         (map_of lk ''href'' = None \<or> map_of lk ''href'' = Some JNull \<or>
          map_of lk ''href'' = Some (JStr []) \<longrightarrow>
            fetch_loop env url ((d, \<lparr>status_code = st, body = Some (JObj kvs)\<rparr>) # exs) objects sent =
            fetch_loop env url
              ((d, \<lparr>status_code = st, body = Some (JObj (AList.update ''links'' (JArr []) kvs))\<rparr>) # exs)
              objects sent \<and>
            fetch_loop env url ((d, \<lparr>status_code = st, body = Some (JObj kvs)\<rparr>) # exs) objects sent
              \<noteq> None) \<and>
         (\<forall>href objs rs. truthy url \<and> map_of lk ''href'' = Some (JStr href) \<and> href \<noteq> [] \<and>
            request_json env url (d, \<lparr>status_code = st, body = Some (JObj kvs)\<rparr>) = (Inr (JObj kvs), rs) \<and>
            page_objects (JObj kvs) = Inr objs \<longrightarrow>
            fetch_loop env url ((d, \<lparr>status_code = st, body = Some (JObj kvs)\<rparr>) # exs) objects sent =
            fetch_loop env (JStr href) exs (objects @ objs) (sent @ rs))"
proof -
  have nl: "next_link (JObj kvs) = Inr (dict_get lk ''href'' JNull)"
    using assms(1) scan_links_first [OF assms(2,3)]
    by (simp add: next_link_def py_get_def dict_get_def py_or_def)
  have eq: "fetch_loop env url ((d, \<lparr>status_code = st, body = Some (JObj kvs)\<rparr>) # exs) objects sent =
            fetch_loop env url
              ((d, \<lparr>status_code = st, body = Some (JObj (AList.update ''links'' (JArr []) kvs))\<rparr>) # exs)
              objects sent \<and>
            fetch_loop env url ((d, \<lparr>status_code = st, body = Some (JObj kvs)\<rparr>) # exs) objects sent
              \<noteq> None"
    if "map_of lk ''href'' = None \<or> map_of lk ''href'' = Some JNull \<or>
          map_of lk ''href'' = Some (JStr [])"
  proof -
    from that have "\<not> truthy (dict_get lk ''href'' JNull)"
      by (auto simp: dict_get_def)
    then show ?thesis
      using nl next_link_no_links [of kvs] page_objects_update_links [of "JArr []" kvs]
      by (auto simp: request_json_def split: sum.splits prod.splits option.splits)
  qed
  have fol: "fetch_loop env url ((d, \<lparr>status_code = st, body = Some (JObj kvs)\<rparr>) # exs) objects sent =
               fetch_loop env (JStr href) exs (objects @ objs) (sent @ rs)"
    if "truthy url" "map_of lk ''href'' = Some (JStr href)" "href \<noteq> []"
      "request_json env url (d, \<lparr>status_code = st, body = Some (JObj kvs)\<rparr>) = (Inr (JObj kvs), rs)"
      "page_objects (JObj kvs) = Inr objs"
    for href objs rs
    using that nl by (simp add: dict_get_def)
  show ?thesis
    using nl eq fol by blast
qed

text \<open>
  A page whose first \<open>next\<close> entry has a null \<open>href\<close> and whose second one has a URL:
  one request, and the page that would follow is never fetched.
\<close>

theorem falsy_href_ends_pagination_witness:
  "next_link (JObj [(''objects'', JArr [JInt 1]),
                    (''links'', JArr [link ''prev'' ''https://h/a'',
                                      JObj [(''rel'', JStr ''next''), (''href'', JNull)],
                                      link ''next'' ''https://h/b''])]) = Inr JNull \<and>
   map_option (\<lambda>res. (fst res, map fst (snd res)))
     (fetch_loop example_env (JStr ''https://h/p'')
        [(''Wed, 04 Nov 2026 10:00:00 +0000'',
          \<lparr>status_code = 200,
           body = Some (JObj [(''objects'', JArr [JInt 1]),
                      (''links'', JArr [link ''prev'' ''https://h/a'',
                                        JObj [(''rel'', JStr ''next''), (''href'', JNull)],
                                        link ''next'' ''https://h/b''])])\<rparr>),
         page JNull [JInt 2] []] [] []) =
   Some (Inr [JInt 1], [JStr ''https://h/p''])"
proof -
  let ?lk = "[(''rel'', JStr ''next''), (''href'', JNull)]"
  let ?kvs = "[(''objects'', JArr [JInt 1]),
                    (''links'', JArr [link ''prev'' ''https://h/a'', JObj ?lk, link ''next'' ''https://h/b''])]"
  let ?ex = "(''Wed, 04 Nov 2026 10:00:00 +0000'', \<lparr>status_code = 200, body = Some (JObj ?kvs)\<rparr>)"
  let ?ex' = "(''Wed, 04 Nov 2026 10:00:00 +0000'',
      \<lparr>status_code = 200, body = Some (JObj (AList.update ''links'' (JArr []) ?kvs))\<rparr>)"
  have a1: "map_of ?kvs ''links'' = Some (JArr ([link ''prev'' ''https://h/a''] @ JObj ?lk # [link ''next'' ''https://h/b'']))"
    by simp
  have a2: "\<forall>l \<in> set [link ''prev'' ''https://h/a'']. \<exists>kvs. l = JObj kvs \<and> dict_get kvs ''rel'' JNull \<noteq> JStr ''next''"
    by (simp add: link_def dict_get_def)
  have a3: "dict_get ?lk ''rel'' JNull = JStr ''next''"
    by (simp add: dict_get_def)
  note t = falsy_href_ends_pagination [OF a1 a2 a3, where env = example_env and url = "JStr ''https://h/p''"
      and d = "''Wed, 04 Nov 2026 10:00:00 +0000''" and st = 200 and exs = "[page JNull [JInt 2] []]"
      and objects = "[]" and sent = "[]"]
  have h: "map_of ?lk ''href'' = Some JNull" by simp
  from t h have
    n: "next_link (JObj ?kvs) = Inr (dict_get ?lk ''href'' JNull)" and
    e: "fetch_loop example_env (JStr ''https://h/p'') [?ex, page JNull [JInt 2] []] [] [] =
        fetch_loop example_env (JStr ''https://h/p'') [?ex', page JNull [JInt 2] []] [] []"
    by blast+
  have r: "map_option (\<lambda>res. (fst res, map fst (snd res)))
             (fetch_loop example_env (JStr ''https://h/p'') [?ex', page JNull [JInt 2] []] [] []) =
           Some (Inr [JInt 1], [JStr ''https://h/p''])"
    by code_simp
  show ?thesis
    using n e r by (simp add: dict_get_def)
qed

section \<open>Column layout of the output\<close>

text \<open>
  Claim C2, amended. When the file is written, its header is \<open>url\<close>, \<open>type\<close>, \<open>exact\<close>,
  then the attribute keys of all objects in strictly ascending lexicographic order, then
  \<open>nested\<close>; there is one row for each object and each row has one cell for each column
  of the header; and an object that lacks an attribute key other than \<open>nested\<close> has an
  empty cell in every column of that name. Strings are ordered as lists of characters,
  characters by their code.
\<close>

theorem columns_fixed_and_sorted:
  assumes "write_objects_to_csv objects = Inr f"
  shows "(\<exists>ks. header f = [''url'', ''type'', ''exact''] @ ks @ [''nested''] \<and>
            sorted_wrt (<) ks \<and> set ks = all_attribute_keys objects) \<and>
         length (rows f) = length objects \<and>
         (\<forall>r \<in> set (rows f). length r = length (header f)) \<and>
         (\<forall>i j. i < length objects \<and> j < length (header f) \<and>
             header f ! j \<in> all_attribute_keys objects \<and>
             header f ! j \<notin> attribute_keys (objects ! i) \<and>
             header f ! j \<noteq> ''nested'' \<longrightarrow>
             rows f ! i ! j = Text [])"
proof -
  let ?ak = "sorted_list_of_set (all_attribute_keys objects)"
  note w = write_objects_to_csv_Inr [OF assms]
  have hd: "header f = [''url'', ''type'', ''exact''] @ ?ak @ [''nested'']"
    using w by (simp add: fieldnames_of_def)
  have sk: "sorted_wrt (<) ?ak"
    by (simp add: strict_sorted_iff)
  have ks: "set ?ak = all_attribute_keys objects"
    by (simp add: finite_all_attribute_keys)
  have len: "length (rows f) = length objects"
    using w by simp
  have lr: "\<forall>r \<in> set (rows f). length r = length (header f)"
    using w by (auto simp: expected_row_def)
  have empty: "rows f ! i ! j = Text []"
    if "i < length objects" "j < length (header f)"
      "header f ! j \<in> all_attribute_keys objects"
      "header f ! j \<notin> attribute_keys (objects ! i)"
      "header f ! j \<noteq> ''nested''" for i j
  proof -
    from w that(1) obtain attrs where oa: "obj_attrs (objects ! i) = Some attrs"
      by fastforce
    then obtain ob where ob: "objects ! i = JObj ob"
      by (auto simp: obj_attrs_def split: json.splits)
    from that(4) oa have "map_of attrs (header f ! j) = None"
      by (simp add: attribute_keys_def map_of_eq_None_iff)
    then have "row_value ?ak (objects ! i) (header f ! j) = JNull"
      using that(3,5) oa ob ks
      by (simp add: row_value_def dict_get_def rendered_def)
    then show ?thesis
      using cell_at [OF assms that(1,2)] by simp
  qed
  show ?thesis
    using hd sk ks len lr empty by blast
qed

text \<open>The example of two objects with the keys \<open>{x, y}\<close> and \<open>{y, z}\<close>.\<close>

theorem columns_fixed_and_sorted_witness:
  "\<exists>f. write_objects_to_csv
          [JObj [(''url'', JStr ''a''), (''attributes'', JObj [(''y'', JInt 1), (''x'', JInt 2)])],
           JObj [(''url'', JStr ''b''), (''attributes'', JObj [(''z'', JInt 3), (''y'', JInt 4)])]]
        = Inr f \<and>
        header f = [''url'', ''type'', ''exact'', ''x'', ''y'', ''z'', ''nested''] \<and>
        rows f ! 0 ! 5 = Text [] \<and> rows f ! 1 ! 3 = Text []"
proof -
  let ?objs = "[JObj [(''url'', JStr ''a''), (''attributes'', JObj [(''y'', JInt 1), (''x'', JInt 2)])],
           JObj [(''url'', JStr ''b''), (''attributes'', JObj [(''z'', JInt 3), (''y'', JInt 4)])]]"
  let ?f = "\<lparr>header = [''url'', ''type'', ''exact'', ''x'', ''y'', ''z'', ''nested''],
        rows = [[Text ''a'', Text [], Text [], Text ''2'', Text ''1'', Text [], Text ''[]''],
                [Text ''b'', Text [], Text [], Text [], Text ''4'', Text ''3'', Text ''[]'']]\<rparr>"
  have h: "write_objects_to_csv ?objs = Inr ?f"
    by code_simp
  have a: "0 < length ?objs \<and> 5 < length (header ?f) \<and>
           header ?f ! 5 \<in> all_attribute_keys ?objs \<and>
           header ?f ! 5 \<notin> attribute_keys (?objs ! 0) \<and> header ?f ! 5 \<noteq> ''nested''"
    by code_simp
  have b: "1 < length ?objs \<and> 3 < length (header ?f) \<and>
           header ?f ! 3 \<in> all_attribute_keys ?objs \<and>
           header ?f ! 3 \<notin> attribute_keys (?objs ! 1) \<and> header ?f ! 3 \<noteq> ''nested''"
    by code_simp
  from columns_fixed_and_sorted [OF h] a b
  have "rows ?f ! 0 ! 5 = Text [] \<and> rows ?f ! 1 ! 3 = Text []"
    by blast
  with h show ?thesis by simp
qed

text \<open>
  Claim C2 as stated fails for the key \<open>nested\<close>: the second object below has no
  attribute \<open>nested\<close>, yet its cell in the attribute column \<open>nested\<close> is \<open>[]\<close>, the JSON
  of its missing \<^verbatim>\<open>nested\<close> array, and not empty.
\<close>

theorem lacking_nested_cell_not_empty:
  "write_objects_to_csv
     [JObj [(''attributes'', JObj [(''nested'', JInt 1)])], JObj []] =
   Inr \<lparr>header = [''url'', ''type'', ''exact'', ''nested'', ''nested''],
        rows = [[Text [], Text [], Text [], Text ''[]'', Text ''[]''],
                [Text [], Text [], Text [], Text ''[]'', Text ''[]'']]\<rparr> \<and>
   ''nested'' \<in> attribute_keys (JObj [(''attributes'', JObj [(''nested'', JInt 1)])]) \<and>
   ''nested'' \<notin> attribute_keys (JObj [])"
  by code_simp

section \<open>Attribute keys that collide with the fixed columns\<close>

text \<open>
  Claim C10. For an object whose attribute bag has a key \<open>url\<close>, \<open>type\<close> or \<open>exact\<close>, the
  header holds that name twice and the row's cell in every column of that name is the
  attribute's value as the flattener renders it (the JSON text of a list or dictionary,
  the value itself otherwise), not the object's top-level field. For the attribute key
  \<open>nested\<close> the header holds \<open>nested\<close> twice and every such cell is the JSON text of the
  object's \<^verbatim>\<open>nested\<close> entry, the empty array when that is missing.
\<close>

theorem colliding_attribute_overwrites:
  assumes "write_objects_to_csv objects = Inr f"
    and "i < length objects"
    and "objects ! i = JObj ob"
    and "obj_attrs (objects ! i) = Some attrs"
    and "map_of attrs k = Some v"
  shows "(k = ''url'' \<or> k = ''type'' \<or> k = ''exact'' \<longrightarrow>
            count_list (header f) k = 2 \<and>
            (\<forall>j < length (header f). header f ! j = k \<longrightarrow>
               rows f ! i ! j = csv_field (if is_compound v then JStr (json_dumps v) else v))) \<and>
         (k = ''nested'' \<longrightarrow>
            count_list (header f) k = 2 \<and>
            (\<forall>j < length (header f). header f ! j = k \<longrightarrow>
               rows f ! i ! j = Text (json_dumps (dict_get ob ''nested'' (JArr [])))))"
proof -
  let ?ak = "sorted_list_of_set (all_attribute_keys objects)"
  note w = write_objects_to_csv_Inr [OF assms(1)]
  have hd: "header f = [''url'', ''type'', ''exact''] @ ?ak @ [''nested'']"
    using w by (simp add: fieldnames_of_def)
  have "k \<in> attribute_keys (objects ! i)"
    using assms(4,5) by (auto simp: attribute_keys_def dest: map_of_SomeD intro: rev_image_eqI)
  then have kin: "k \<in> all_attribute_keys objects"
    using assms(2) by (auto simp: all_attribute_keys_def)
  then have kak: "k \<in> set ?ak"
    by (simp add: finite_all_attribute_keys)
  have cnt: "count_list ?ak k = 1"
    using kak by (simp add: count_list_distinct)
  have two: "count_list (header f) k = 2"
    if "k = ''url'' \<or> k = ''type'' \<or> k = ''exact'' \<or> k = ''nested''"
    using that cnt unfolding hd by auto
  have attr: "rows f ! i ! j = csv_field (if is_compound v then JStr (json_dumps v) else v)"
    if "k \<noteq> ''nested''" "j < length (header f)" "header f ! j = k" for j
    using cell_at [OF assms(1,2) that(2)] that(1,3) kak assms(3,4,5)
    by (simp add: row_value_def dict_get_def rendered_def)
  have nest: "rows f ! i ! j = Text (json_dumps (dict_get ob ''nested'' (JArr [])))"
    if "k = ''nested''" "j < length (header f)" "header f ! j = k" for j
    using cell_at [OF assms(1,2) that(2)] that(1,3) assms(3)
    by (simp add: row_value_def)
  show ?thesis
    using two attr nest by auto
qed

theorem colliding_attribute_overwrites_witness:
  "\<exists>f. write_objects_to_csv
          [JObj [(''url'', JStr ''top''), (''nested'', JArr [JInt 7]),
                 (''attributes'', JObj [(''url'', JStr ''attr''), (''nested'', JStr ''lost'')])]]
        = Inr f \<and>
        header f = [''url'', ''type'', ''exact'', ''nested'', ''url'', ''nested''] \<and>
        count_list (header f) ''url'' = 2 \<and>
        rows f ! 0 ! 0 = Text ''attr'' \<and> rows f ! 0 ! 4 = Text ''attr'' \<and>
        rows f ! 0 ! 3 = Text ''[7]'' \<and> rows f ! 0 ! 5 = Text ''[7]''"
proof -
  let ?ob = "[(''url'', JStr ''top''), (''nested'', JArr [JInt 7]),
                 (''attributes'', JObj [(''url'', JStr ''attr''), (''nested'', JStr ''lost'')])]"
  let ?attrs = "[(''url'', JStr ''attr''), (''nested'', JStr ''lost'')]"
  let ?f = "\<lparr>header = [''url'', ''type'', ''exact'', ''nested'', ''url'', ''nested''],
        rows = [[Text ''attr'', Text [], Text [], Text ''[7]'', Text ''attr'', Text ''[7]'']]\<rparr>"
  have h: "write_objects_to_csv [JObj ?ob] = Inr ?f"
    by code_simp
  have i: "0 < length [JObj ?ob]" by simp
  have o: "[JObj ?ob] ! 0 = JObj ?ob" by simp
  have a: "obj_attrs ([JObj ?ob] ! 0) = Some ?attrs" by code_simp
  have m: "map_of ?attrs ''url'' = Some (JStr ''attr'')" by simp
  from colliding_attribute_overwrites [OF h i o a m]
  have "count_list (header ?f) ''url'' = 2"
    by blast
  with h show ?thesis by simp
qed

section \<open>Missing keys\<close>




section \<open>Order of the objects and of the rows\<close>





section \<open>The check of the credentials\<close>

lemma build_signed_headers_error:
  "build_signed_headers env d url m = Inl e \<Longrightarrow> e = AttributeError \<or> e = ValueError"
  by (auto simp: build_signed_headers_def urlparse_path_def compute_digest_def Let_def
      split: sum.splits json.splits if_splits option.splits)

lemma request_json_error:
  "request_json env url ex = (Inl e, rs) \<Longrightarrow> \<forall>m. e \<noteq> RuntimeError m"
  by (auto simp: request_json_def split: sum.splits if_splits option.splits
      dest: build_signed_headers_error)

lemma py_get_error: "py_get x k d = Inl e \<Longrightarrow> e = AttributeError"
  by (auto simp: py_get_def split: json.splits)

lemma py_iter_error: "py_iter v = Inl e \<Longrightarrow> e = TypeError"
  by (cases v) auto

lemma page_objects_error: "page_objects data = Inl e \<Longrightarrow> \<forall>m. e \<noteq> RuntimeError m"
  by (auto simp: page_objects_def split: sum.splits dest: py_get_error py_iter_error)

lemma scan_links_error: "scan_links ls = Inl e \<Longrightarrow> e = AttributeError"
  by (induction ls) (auto split: sum.splits if_splits dest: py_get_error)

lemma next_link_error: "next_link data = Inl e \<Longrightarrow> \<forall>m. e \<noteq> RuntimeError m"
  by (auto simp: next_link_def split: sum.splits dest: py_get_error py_iter_error scan_links_error)

lemma fetch_loop_error:
  "fetch_loop env url exs objects sent = Some (Inl e, sent') \<Longrightarrow> \<forall>m. e \<noteq> RuntimeError m"
proof (induction exs arbitrary: url objects sent)
  case Nil
  then show ?case by (simp split: if_splits)
next
  case (Cons ex exs)
  show ?case
  proof (cases "truthy url")
    case False
    with Cons.prems show ?thesis by simp
  next
    case True
    obtain r rs where rq: "request_json env url ex = (r, rs)" by (cases "request_json env url ex")
    show ?thesis
    proof (cases r)
      case (Inl e')
      with Cons.prems True rq request_json_error [of env url ex e' rs] show ?thesis by auto
    next
      case (Inr data)
      show ?thesis
      proof (cases "page_objects data")
        case (Inl e')
        with Cons.prems True rq Inr page_objects_error [of data e'] show ?thesis by auto
      next
        case po: (Inr objs)
        show ?thesis
        proof (cases "next_link data")
          case (Inl e')
          with Cons.prems True rq Inr po next_link_error [of data e'] show ?thesis by auto
        next
          case nl: (Inr nxt)
          show ?thesis
          proof (cases "truthy nxt")
            case False
            with Cons.prems True rq Inr po nl show ?thesis by simp
          next
            case t: True
            with Cons.prems True rq Inr po nl
            have "fetch_loop env nxt exs (objects @ objs) (sent @ rs) = Some (Inl e, sent')"
              by simp
            from Cons.IH [OF this] show ?thesis .
          qed
        qed
      qed
    qed
  qed
qed

lemma collect_loop_error: "collect_loop objs K = Inl e \<Longrightarrow> e = AttributeError"
  by (induction objs arbitrary: K) (auto split: sum.splits json.splits dest: py_get_error)

lemma fill_attrs_error: "fill_attrs attrs keys row = Inl e \<Longrightarrow> e = AttributeError"
  by (induction keys arbitrary: row) (auto split: sum.splits dest: py_get_error)

lemma build_row_error: "build_row fn ak obj = Inl e \<Longrightarrow> e = AttributeError"
  by (auto simp: build_row_def Let_def split: sum.splits dest: py_get_error fill_attrs_error)

lemma writerow_error: "writerow fn row = Inl e \<Longrightarrow> e = ValueError"
  by (auto simp: writerow_def split: if_splits)

lemma write_rows_error: "write_rows fn ak objs = Inl e \<Longrightarrow> e = AttributeError \<or> e = ValueError"
  by (induction objs arbitrary: e) (auto split: sum.splits dest: build_row_error writerow_error)

lemma write_objects_to_csv_error:
  "write_objects_to_csv objs = Inl e \<Longrightarrow> \<forall>m. e \<noteq> RuntimeError m"
  by (auto simp: write_objects_to_csv_def collect_attribute_keys_def Let_def
      split: sum.splits dest: collect_loop_error write_rows_error)

text \<open>
  Claim C8. When the public or the private key is unset, empty or starts with \<open><\<close>, the
  export fails with the error that asks to set the key, and no request has been sent,
  whatever the server would answer. Conversely that error never comes with a request
  sent: it is raised by the check at the start and nowhere in the loop over the pages
  or in the flattener.
\<close>

theorem credentials_checked_before_any_request:
  "(unset_or_placeholder (PUBLIC_KEY env) \<or> unset_or_placeholder (PRIVATE_KEY env) \<longrightarrow>
      (\<exists>msg. export_catalog env exs = Some (Inl (RuntimeError msg), []))) \<and>
   (\<forall>msg sent. export_catalog env exs = Some (Inl (RuntimeError msg), sent) \<longrightarrow>
      sent = [] \<and> (unset_or_placeholder (PUBLIC_KEY env) \<or> unset_or_placeholder (PRIVATE_KEY env))) \<and>
   (\<forall>key. unset_or_placeholder key \<longleftrightarrow> key = None \<or> key = Some [] \<or> (\<exists>s. key = Some (CHR ''<'' # s)))"
proof -
  have a: "\<exists>msg. export_catalog env exs = Some (Inl (RuntimeError msg), [])"
    if "unset_or_placeholder (PUBLIC_KEY env) \<or> unset_or_placeholder (PRIVATE_KEY env)"
    using that by (auto simp: export_catalog_def)
  have b: "sent = [] \<and> (unset_or_placeholder (PUBLIC_KEY env) \<or> unset_or_placeholder (PRIVATE_KEY env))"
    if e: "export_catalog env exs = Some (Inl (RuntimeError msg), sent)" for msg sent
  proof (rule ccontr)
    assume n: "\<not> (sent = [] \<and> (unset_or_placeholder (PUBLIC_KEY env) \<or> unset_or_placeholder (PRIVATE_KEY env)))"
    have ok: "\<not> unset_or_placeholder (PUBLIC_KEY env)" "\<not> unset_or_placeholder (PRIVATE_KEY env)"
      using e n by (auto simp: export_catalog_def split: if_splits)
    from e ok consider
      (loop) "iterate_all_objects env exs = Some (Inl (RuntimeError msg), sent)" |
      (flat) objects where "write_objects_to_csv objects = Inl (RuntimeError msg)"
      by (auto simp: export_catalog_def split: option.splits prod.splits sum.splits)
    then show False
    proof cases
      case loop
      from fetch_loop_error [OF loop [unfolded iterate_all_objects_def]] show False by simp
    next
      case flat
      from write_objects_to_csv_error [OF flat] show False by simp
    qed
  qed
  have c: "unset_or_placeholder key \<longleftrightarrow> key = None \<or> key = Some [] \<or> (\<exists>s. key = Some (CHR ''<'' # s))"
    for key
  proof (cases key)
    case None
    then show ?thesis by (simp add: unset_or_placeholder_def)
  next
    case (Some s)
    then show ?thesis by (cases s) (auto simp: unset_or_placeholder_def)
  qed
  show ?thesis
    using a b c by blast
qed

text \<open>A placeholder for the private key, and a server with two pages to give.\<close>

theorem credentials_checked_before_any_request_witness:
  "export_catalog (example_env\<lparr>PRIVATE_KEY := Some ''<your key>''\<rparr>)
     [page JNull [] [link ''next'' ''https://live.luigisbox.com/v1/content_export?cursor=c''],
      page JNull [] []] =
   Some (Inl (RuntimeError ''Please set PRIVATE_KEY at the top of the script.''), [])"
proof -
  let ?env = "example_env\<lparr>PRIVATE_KEY := Some ''<your key>''\<rparr>"
  let ?exs = "[page JNull [] [link ''next'' ''https://live.luigisbox.com/v1/content_export?cursor=c''],
      page JNull [] []]"
  have u: "unset_or_placeholder (PUBLIC_KEY ?env) \<or> unset_or_placeholder (PRIVATE_KEY ?env)"
    by (simp add: unset_or_placeholder_def)
  from credentials_checked_before_any_request [of ?env ?exs] u
  obtain msg where e: "export_catalog ?env ?exs = Some (Inl (RuntimeError msg), [])"
    by blast
  have "map_option fst (export_catalog ?env ?exs) =
        Some (Inl (RuntimeError ''Please set PRIVATE_KEY at the top of the script.''))"
    by code_simp
  with e show ?thesis by simp
qed

section \<open>The digest and the headers\<close>

lemma b64_alphabet_no_space: "\<forall>c \<in> set b64_alphabet. \<not> is_space c"
  by (simp add: b64_alphabet_def is_space_def)

lemma b64_char_no_space: "\<not> is_space (b64_char n)"
proof -
  have "length b64_alphabet = 64"
    by (simp add: b64_alphabet_def)
  then have "b64_char n \<in> set b64_alphabet"
    unfolding b64_char_def by (intro nth_mem) simp
  then show ?thesis
    using b64_alphabet_no_space by blast
qed

lemma b64encode_no_space: "\<forall>c \<in> set (b64encode bs). \<not> is_space c"
  by (induction bs rule: b64encode.induct)
     (simp_all add: Let_def b64_char_no_space, simp_all add: is_space_def)

lemma py_strip_id:
  assumes "\<forall>c \<in> set s. \<not> is_space c"
  shows "py_strip s = s"
proof -
  have "dropWhile is_space xs = xs" if "\<forall>c \<in> set xs. \<not> is_space c" for xs
    using that by (cases xs) simp_all
  from this [of s] this [of "rev s"] show ?thesis
    using assms by (simp add: py_strip_def)
qed

lemma compute_digest_Some:
  "compute_digest env (Some key) method endpoint date_str content_type =
     Inr (b64encode (hmac_sha256 env key
            (method @ [CHR 0x0A] @ content_type @ [CHR 0x0A] @ date_str @ [CHR 0x0A] @ endpoint)))"
  by (simp add: compute_digest_def py_strip_id b64encode_no_space)

text \<open>
  Claim C3. The content type is the constant \<^verbatim>\<open>application/json; charset=utf-8\<close>. For every
  method, endpoint, date and private key the digest is the Base64 text of the MAC, under
  that key, of method, content type, date and endpoint joined by line feeds: stripping
  the Base64 text changes nothing. All headers that are built carry that content type and
  the date that was signed, and their \<^verbatim>\<open>Authorization\<close> is \<^verbatim>\<open>ApiAuth\<close>, a space, the public
  key as the format string shows it, a colon and the digest computed from the private key
  of the settings and the path of the URL. With both keys set and a URL that parses, the
  headers are built and \<^verbatim>\<open>Authorization\<close> is \<^verbatim>\<open>ApiAuth\<close>, the public key, a colon, that
  Base64 text.
\<close>

theorem digest_is_base64_of_hmac:
  "CONTENT_TYPE = ''application/json; charset=utf-8'' \<and>
   compute_digest env (Some key) method endpoint date_str CONTENT_TYPE =
     Inr (b64encode (hmac_sha256 env key
            (method @ [CHR 0x0A] @ ''application/json; charset=utf-8'' @ [CHR 0x0A] @
             date_str @ [CHR 0x0A] @ endpoint))) \<and>
   (\<forall>hs. build_signed_headers env date_str full_url method = Inr hs \<longrightarrow>
      (\<exists>key endpoint digest.
         PRIVATE_KEY env = Some key \<and>
         urlparse_path env full_url = Inr endpoint \<and>
         compute_digest env (Some key) method endpoint date_str CONTENT_TYPE = Inr digest \<and>
         map_of hs ''Content-Type'' = Some ''application/json; charset=utf-8'' \<and>
         map_of hs ''Date'' = Some date_str \<and>
         map_of hs ''Authorization'' = Some (''ApiAuth '' @ format_opt (PUBLIC_KEY env) @ '':'' @ digest))) \<and>
   (PUBLIC_KEY env = Some pub \<and> PRIVATE_KEY env = Some key \<and>
    urlparse_path env full_url = Inr endpoint \<longrightarrow>
      (\<exists>hs. build_signed_headers env date_str full_url method = Inr hs \<and>
         map_of hs ''Authorization'' =
           Some (''ApiAuth '' @ pub @ '':'' @
                 b64encode (hmac_sha256 env key
                   (method @ [CHR 0x0A] @ ''application/json; charset=utf-8'' @ [CHR 0x0A] @
                    date_str @ [CHR 0x0A] @ endpoint)))))"
proof -
  have ct: "CONTENT_TYPE = ''application/json; charset=utf-8''"
    by (simp add: CONTENT_TYPE_def)
  have d: "compute_digest env (Some key) method endpoint date_str CONTENT_TYPE =
     Inr (b64encode (hmac_sha256 env key
            (method @ [CHR 0x0A] @ ''application/json; charset=utf-8'' @ [CHR 0x0A] @
             date_str @ [CHR 0x0A] @ endpoint)))" for key endpoint
    unfolding compute_digest_Some ct by simp
  have one: "\<exists>key endpoint digest.
         PRIVATE_KEY env = Some key \<and>
         urlparse_path env full_url = Inr endpoint \<and>
         compute_digest env (Some key) method endpoint date_str CONTENT_TYPE = Inr digest \<and>
         map_of hs ''Content-Type'' = Some ''application/json; charset=utf-8'' \<and>
         map_of hs ''Date'' = Some date_str \<and>
         map_of hs ''Authorization'' = Some (''ApiAuth '' @ format_opt (PUBLIC_KEY env) @ '':'' @ digest)"
    if "build_signed_headers env date_str full_url method = Inr hs" for hs
  proof -
    from that obtain endpoint digest where
      u: "urlparse_path env full_url = Inr endpoint" and
      c: "compute_digest env (PRIVATE_KEY env) method endpoint date_str CONTENT_TYPE = Inr digest" and
      h: "hs = [(''Content-Type'', CONTENT_TYPE), (''Date'', date_str),
               (''Authorization'', ''ApiAuth '' @ format_opt (PUBLIC_KEY env) @ '':'' @ digest),
               (''Accept-Encoding'', ''gzip, deflate'')]"
      by (auto simp: build_signed_headers_def split: sum.splits)
    from c obtain key where k: "PRIVATE_KEY env = Some key"
      by (cases "PRIVATE_KEY env") (simp_all add: compute_digest_def)
    show ?thesis
      using u c k unfolding h ct by simp
  qed
  have two: "\<exists>hs. build_signed_headers env date_str full_url method = Inr hs \<and>
         map_of hs ''Authorization'' =
           Some (''ApiAuth '' @ pub @ '':'' @
                 b64encode (hmac_sha256 env key
                   (method @ [CHR 0x0A] @ ''application/json; charset=utf-8'' @ [CHR 0x0A] @
                    date_str @ [CHR 0x0A] @ endpoint)))"
    if "PUBLIC_KEY env = Some pub" "PRIVATE_KEY env = Some key" "urlparse_path env full_url = Inr endpoint"
    using that d [of key endpoint]
    by (simp add: build_signed_headers_def format_opt_def)
  show ?thesis
    using ct d one two by blast
qed

text \<open>
  The headers for a first page URL under the example settings, whose stand-in for the MAC
  is the key followed by the message; and Base64 on a well-known example.
\<close>

theorem digest_is_base64_of_hmac_witness:
  "build_signed_headers example_env ''Wed, 04 Nov 2026 10:00:00 +0000''
     (JStr ''https://live.luigisbox.com/v1/content_export?size=500'') ''GET'' =
   Inr [(''Content-Type'', ''application/json; charset=utf-8''),
        (''Date'', ''Wed, 04 Nov 2026 10:00:00 +0000''),
        (''Authorization'', ''ApiAuth tracker:'' @
           b64encode (''secret'' @ ''GET'' @ [CHR 0x0A] @ ''application/json; charset=utf-8'' @ [CHR 0x0A] @
             ''Wed, 04 Nov 2026 10:00:00 +0000'' @ [CHR 0x0A] @ ''/v1/content_export'')),
        (''Accept-Encoding'', ''gzip, deflate'')] \<and>
   b64encode ''Man'' = ''TWFu''"
proof -
  have u: "urlparse_path example_env (JStr ''https://live.luigisbox.com/v1/content_export?size=500'')
             = Inr ''/v1/content_export''"
    by code_simp
  have k: "PUBLIC_KEY example_env = Some ''tracker''" "PRIVATE_KEY example_env = Some ''secret''"
    "hmac_sha256 example_env = (\<lambda>key msg. key @ msg)"
    by (simp_all add: example_env_def)
  have b: "b64encode ''Man'' = ''TWFu''"
    by code_simp
  from digest_is_base64_of_hmac [of example_env "''secret''" "''GET''" "''/v1/content_export''"
      "''Wed, 04 Nov 2026 10:00:00 +0000''"
      "JStr ''https://live.luigisbox.com/v1/content_export?size=500''" "''tracker''"]
  obtain hs where
    h: "build_signed_headers example_env ''Wed, 04 Nov 2026 10:00:00 +0000''
          (JStr ''https://live.luigisbox.com/v1/content_export?size=500'') ''GET'' = Inr hs"
    using u k by blast
  then show ?thesis
    using u k b by (simp add: build_signed_headers_def compute_digest_Some CONTENT_TYPE_def format_opt_def)
qed

section \<open>The path that is signed\<close>



















end
